theory Spec2Isabelle
  imports Complex_Main "HOL-Library.Word" "HOL-Library.Log_Nat" "HOL-Library.Sublist"
begin

section \<open>Go values used by main.go\<close>

subsection \<open>Bytes and slices\<close>

type_synonym byte = "8 word"

text \<open>
  A Go slice is a window into a backing array: \<open>elems\<close> are the \<open>len\<close> elements the
  slice shows, \<open>spare\<close> the elements of the backing array between \<open>len\<close> and \<open>cap\<close>.
  An index expression \<open>buf[i]\<close> is checked against \<open>len\<close>, a slice expression
  \<open>buf[lo:hi]\<close> against \<open>cap\<close>; both panic when out of range.
\<close>

record slice =
  elems :: "byte list"
  spare :: "byte list"

datatype panic = IndexOutOfRange nat nat | SliceBoundsOutOfRange nat nat

definition len :: "slice \<Rightarrow> nat" where
  "len s = length (elems s)"

definition cap :: "slice \<Rightarrow> nat" where
  "cap s = length (elems s) + length (spare s)"

text \<open>\<open>make([]byte, n)\<close>: \<open>n\<close> zero bytes, capacity \<open>n\<close>.\<close>

definition make_slice :: "nat \<Rightarrow> slice" where
  "make_slice n = \<lparr>elems = replicate n 0, spare = []\<rparr>"

text \<open>A byte slice literal, or a \<open>[]byte\<close> value whose capacity is its length.\<close>

definition bytes :: "byte list \<Rightarrow> slice" where
  "bytes bs = \<lparr>elems = bs, spare = []\<rparr>"

definition index :: "slice \<Rightarrow> nat \<Rightarrow> panic + byte" where
  "index s i =
     (if i < len s then Inr (elems s ! i) else Inl (IndexOutOfRange i (len s)))"

definition subslice :: "slice \<Rightarrow> nat \<Rightarrow> nat \<Rightarrow> panic + slice" where
  "subslice s lo hi =
     (if cap s < hi then Inl (SliceBoundsOutOfRange hi (cap s))
      else if hi < lo then Inl (SliceBoundsOutOfRange lo hi)
      else Inr \<lparr>elems = take (hi - lo) (drop lo (elems s @ spare s)),
                spare = drop hi (elems s @ spare s)\<rparr>)"

text \<open>
  The builtin \<open>copy(dst, src)\<close> overwrites the first \<open>min(len(dst), len(src))\<close>
  elements of \<open>dst\<close> and leaves the rest of \<open>dst\<close> as it was.
\<close>

definition copy :: "slice \<Rightarrow> byte list \<Rightarrow> slice" where
  "copy dst src =
     dst\<lparr>elems := take (len dst) src @ drop (length src) (elems dst)\<rparr>"

subsection \<open>\<open>fmt.Sprintf("%x", b)\<close> and \<open>strconv.ParseInt\<close>\<close>

text \<open>
  The verb \<open>%x\<close> on a byte slice prints two lower-case hexadecimal digits per byte,
  most significant first, with nothing in between.
\<close>

definition hexdigit :: "nat \<Rightarrow> char" where
  "hexdigit n = ''0123456789abcdef'' ! n"

definition Sprintf_x :: "byte list \<Rightarrow> string" where
  "Sprintf_x bs = concat (map (\<lambda>b. [hexdigit (unat b div 16), hexdigit (unat b mod 16)]) bs)"

datatype num_error = ErrSyntax | ErrRange

text \<open>
  The digit a character stands for in \<open>strconv.ParseUint\<close>: \<open>0\<close> to \<open>9\<close>, and
  the letters of either case from 10 on.
\<close>

definition digit_val :: "char \<Rightarrow> nat option" where
  "digit_val c =
     (let n = (of_char c :: nat) in
      if 48 \<le> n \<and> n \<le> 57 then Some (n - 48)
      else if 97 \<le> n \<and> n \<le> 122 then Some (n - 97 + 10)
      else if 65 \<le> n \<and> n \<le> 90 then Some (n - 65 + 10)
      else None)"

text \<open>
  The digit loop of \<open>ParseUint(s, base, 64)\<close> for an explicit base: a character that
  is no digit of the base is a syntax error, a value that leaves 64 bits a range error.
\<close>

fun ParseUint_digits :: "nat \<Rightarrow> nat \<Rightarrow> string \<Rightarrow> num_error + nat" where
  "ParseUint_digits base n [] = Inr n"
| "ParseUint_digits base n (c # cs) =
     (case digit_val c of
        None \<Rightarrow> Inl ErrSyntax
      | Some d \<Rightarrow>
          if base \<le> d then Inl ErrSyntax
          else if (2 ^ 64 - 1) div base + 1 \<le> n then Inl ErrRange
          else if 2 ^ 64 - 1 < n * base + d then Inl ErrRange
          else ParseUint_digits base (n * base + d) cs)"

definition ParseUint :: "string \<Rightarrow> nat \<Rightarrow> num_error + nat" where
  "ParseUint s base = (if s = [] then Inl ErrSyntax else ParseUint_digits base 0 s)"

text \<open>
  \<open>strconv.ParseInt(s, base, bitSize)\<close> for an explicit base (2 to 36): an optional
  sign, then the digits; the magnitude must fit the signed \<open>bitSize\<close>-bit range.
\<close>

definition ParseInt :: "string \<Rightarrow> nat \<Rightarrow> nat \<Rightarrow> num_error + int" where
  "ParseInt s base bitSize =
     (case s of
        [] \<Rightarrow> Inl ErrSyntax
      | c # cs \<Rightarrow>
          let neg = (c = CHR ''-'');
              ds = (if c = CHR ''+'' \<or> c = CHR ''-'' then cs else s)
          in (case ParseUint ds base of
                Inl e \<Rightarrow> Inl e
              | Inr un \<Rightarrow>
                  if \<not> neg \<and> 2 ^ (bitSize - 1) \<le> un then Inl ErrRange
                  else if neg \<and> 2 ^ (bitSize - 1) < un then Inl ErrRange
                  else Inr (if neg then - (int un) else int un)))"

subsection \<open>float64\<close>

text \<open>
  A finite float64 is modelled by the rational number it denotes. Every float64
  operation of the program is the exact operation followed by rounding to the nearest
  float64, ties to the even significand (IEEE 754 binary64: 53 significant bits,
  smallest normal exponent -1022). The program's values stay far below the largest
  finite float64 (its integers come from \<open>ParseInt\<close> with 64 bits), so rounding to
  infinity does not arise and is not modelled.
\<close>

type_synonym float64 = rat

text \<open>For \<open>a > 0\<close>, the exponent \<open>e\<close> with \<open>2 ^ e \<le> a < 2 ^ (e + 1)\<close>.\<close>

definition ilog2 :: "rat \<Rightarrow> int" where
  "ilog2 a =
     (if 1 \<le> a then int (floorlog 2 (nat \<lfloor>a\<rfloor>)) - 1
      else - int (floorlog 2 (nat (\<lceil>1 / a\<rceil> - 1))))"

definition round_half_even :: "rat \<Rightarrow> int" where
  "round_half_even x =
     (let f = \<lfloor>x\<rfloor>; r = x - of_int f
      in if r < 1 / 2 then f
         else if 1 / 2 < r then f + 1
         else if even f then f else f + 1)"

definition round64 :: "rat \<Rightarrow> float64" where
  "round64 x =
     (if x = 0 then 0
      else let e = max (ilog2 \<bar>x\<bar>) (- 1022);
               u = power_int 2 (e - 52)
           in sgn x * of_int (round_half_even (\<bar>x\<bar> / u)) * u)"

definition f64_of_int :: "int \<Rightarrow> float64" where
  "f64_of_int i = round64 (of_int i)"

definition f64_add :: "float64 \<Rightarrow> float64 \<Rightarrow> float64" where
  "f64_add a b = round64 (a + b)"

definition f64_mul :: "float64 \<Rightarrow> float64 \<Rightarrow> float64" where
  "f64_mul a b = round64 (a * b)"

text \<open>Division by a non-zero divisor (the program divides by the constant 100 only).\<close>

definition f64_quo :: "float64 \<Rightarrow> float64 \<Rightarrow> float64" where
  "f64_quo a b = round64 (a / b)"

text \<open>
  The constants \<open>0.005\<close> and \<open>0.0025\<close> of the program are the float64 values nearest
  to these decimal fractions; \<open>50000\<close> and \<open>100\<close> are float64 values as they stand.
\<close>

definition lit_0_005 :: float64 where
  "lit_0_005 = round64 (5 / 1000)"

definition lit_0_0025 :: float64 where
  "lit_0_0025 = round64 (25 / 10000)"

section \<open>The program\<close>

subsection \<open>Errors, panics and the metrics\<close>

text \<open>
  The \<open>error\<close> values of main.go, one constructor per message: an error of the
  bluetooth adapter (opaque, kept as its text), the two errors \<open>parsePacket\<close> builds
  and the three wrappers of \<open>measure\<close> (\<open>%w\<close> keeps the wrapped error).
\<close>

datatype error =
    AdapterError string
  | InvalidFormat
  | CouldNotConvert string num_error
  | Scanning error
  | StoppingScan error
  | ParsingPacket error

text \<open>A call either returns or panics (a run-time panic of an index or slice expression).\<close>

datatype 'a exec = Panicked panic | Returned 'a

text \<open>
  The package-level prometheus metrics: two counters, three gauges and the histogram,
  kept as the list of its observations. All start at zero.
\<close>

record metrics =
  numMeasurements :: nat
  numMeasurementsErrs :: nat
  tempGauge :: float64
  humidityGauge :: float64
  pressureGauge :: float64
  measureTime :: "float64 list"

definition metrics0 :: metrics where
  "metrics0 = \<lparr>numMeasurements = 0, numMeasurementsErrs = 0, tempGauge = 0,
     humidityGauge = 0, pressureGauge = 0, measureTime = []\<rparr>"

subsection \<open>parsePacket\<close>

text \<open>
  \<open>parsePacket\<close> reads and writes the package-level gauges, so it takes the metrics and
  returns them with its result. The diagnostic prints to standard output are left out.
\<close>

definition parsePacket :: "slice \<Rightarrow> metrics \<Rightarrow> metrics \<times> error option exec" where
  "parsePacket buf m =
     (case index buf 0 of
        Inl p \<Rightarrow> (m, Panicked p)
      | Inr b0 \<Rightarrow>
          if b0 \<noteq> 5 then (m, Returned (Some InvalidFormat))
          else
            (case subslice buf 1 3 of
               Inl p \<Rightarrow> (m, Panicked p)
             | Inr s1 \<Rightarrow>
                 let ts = Sprintf_x (elems s1) in
                 (case ParseInt ts 16 64 of
                    Inl e \<Rightarrow> (m, Returned (Some (CouldNotConvert ts e)))
                  | Inr t \<Rightarrow>
                      let temp = f64_mul (f64_of_int t) lit_0_005;
                          m1 = m\<lparr>tempGauge := temp\<rparr>
                      in
                      (case subslice buf 3 5 of
                         Inl p \<Rightarrow> (m1, Panicked p)
                       | Inr s2 \<Rightarrow>
                           let hs = Sprintf_x (elems s2) in
                           (case ParseInt hs 16 64 of
                              Inl e \<Rightarrow> (m1, Returned (Some (CouldNotConvert hs e)))
                            | Inr h \<Rightarrow>
                                let humidity = f64_mul (f64_of_int h) lit_0_0025;
                                    m2 = m1\<lparr>humidityGauge := humidity\<rparr>
                                in
                                (case subslice buf 5 7 of
                                   Inl p \<Rightarrow> (m2, Panicked p)
                                 | Inr s3 \<Rightarrow>
                                     let ps = Sprintf_x (elems s3) in
                                     (case ParseInt ps 16 64 of
                                        Inl e \<Rightarrow> (m2, Returned (Some (CouldNotConvert ps e)))
                                      | Inr p \<Rightarrow>
                                          let pressure =
                                                f64_quo (f64_add (f64_of_int p) 50000) 100;
                                              m3 = m2\<lparr>pressureGauge := pressure\<rparr>
                                          in (m3, Returned None))))))))"

subsection \<open>measure\<close>

text \<open>
  A scan result as far as \<open>measure\<close> looks at it: the advertised local name and the
  manufacturer data, a map from company identifiers to payloads.
\<close>

record ScanResult =
  LocalName :: string
  ManufacturerData :: "16 word \<rightharpoonup> byte list"

text \<open>
  The bluetooth adapter is not part of the repository. One completed call of
  \<open>adapter.Scan\<close> is given by what the adapter did during it: the scan results it
  handed to the callback, in order, each with what \<open>adapter.StopScan\<close> returns when the
  callback calls it for that result (\<open>None\<close> is \<open>nil\<close>); the error \<open>Scan\<close> itself
  returned; and the seconds that \<open>time.Since(start)\<close> reads when \<open>measure\<close> returns.
\<close>

record scan =
  found :: "(ScanResult \<times> string option) list"
  returned :: "string option"
  seconds :: float64

text \<open>\<open>strings.Contains(s, sub)\<close>.\<close>

fun Contains :: "string \<Rightarrow> string \<Rightarrow> bool" where
  "Contains [] sub = (sub = [])"
| "Contains (c # s) sub = (prefix sub (c # s) \<or> Contains s sub)"

text \<open>
  The callback passed to \<open>adapter.Scan\<close>. It writes the two variables of \<open>measure\<close> it
  closes over, \<open>buf\<close> and \<open>stopScanErr\<close>.
\<close>

definition callback ::
    "ScanResult \<times> string option \<Rightarrow> slice \<times> error option \<Rightarrow> slice \<times> error option" where
  "callback d st =
     (case d of (device, stop) \<Rightarrow>
       (case st of (buf, stopScanErr) \<Rightarrow>
          if \<not> Contains (LocalName device) ''Ruuvi'' then (buf, stopScanErr)
          else
            (case ManufacturerData device 1177 of
               None \<Rightarrow> (buf, stopScanErr)
             | Some buffer \<Rightarrow>
                 (case stop of
                    Some err \<Rightarrow> (copy buf buffer, Some (StoppingScan (AdapterError err)))
                  | None \<Rightarrow> (copy buf buffer, stopScanErr)))))"

text \<open>The variables \<open>buf\<close> and \<open>stopScanErr\<close> when \<open>adapter.Scan\<close> has returned.\<close>

definition scanned :: "scan \<Rightarrow> slice \<times> error option" where
  "scanned sc = foldl (\<lambda>st d. callback d st) (make_slice 32, None) (found sc)"

text \<open>The deferred function: it runs when \<open>measure\<close> returns and when it panics.\<close>

definition observe :: "scan \<Rightarrow> metrics \<Rightarrow> metrics" where
  "observe sc m = m\<lparr>measureTime := measureTime m @ [seconds sc]\<rparr>"

definition measure_go :: "scan \<Rightarrow> metrics \<Rightarrow> metrics \<times> error option exec" where
  "measure_go sc m =
     (case scanned sc of (buf, stopScanErr) \<Rightarrow>
       (case returned sc of
          Some err \<Rightarrow> (observe sc m, Returned (Some (Scanning (AdapterError err))))
        | None \<Rightarrow>
            (case stopScanErr of
               Some e \<Rightarrow> (observe sc m, Returned (Some e))
             | None \<Rightarrow>
                 (case parsePacket buf m of
                    (m', Panicked p) \<Rightarrow> (observe sc m', Panicked p)
                  | (m', Returned (Some e)) \<Rightarrow>
                      (observe sc m', Returned (Some (ParsingPacket e)))
                  | (m', Returned None) \<Rightarrow> (observe sc m', Returned None)))))"

subsection \<open>main\<close>







section \<open>Vocabulary of the specification\<close>

text \<open>
  Two bytes read as a big-endian 16-bit integer, unsigned and signed (two's complement).
\<close>

definition unsigned16 :: "byte \<Rightarrow> byte \<Rightarrow> int" where
  "unsigned16 hi lo = 256 * uint hi + uint lo"

definition signed16 :: "byte \<Rightarrow> byte \<Rightarrow> int" where
  "signed16 hi lo =
     (if unsigned16 hi lo < 32768 then unsigned16 hi lo else unsigned16 hi lo - 65536)"

text \<open>The measurement the metrics hold: temperature, humidity, pressure.\<close>

definition gauges :: "metrics \<Rightarrow> float64 \<times> float64 \<times> float64" where
  "gauges m = (tempGauge m, humidityGauge m, pressureGauge m)"

text \<open>
  The triple as the specification words it, with all three fields read as signed: this
  definition follows the specification, not the program.
\<close>

definition decoded_signed :: "byte list \<Rightarrow> float64 \<times> float64 \<times> float64" where
  "decoded_signed bs =
     (f64_mul (f64_of_int (signed16 (bs ! 1) (bs ! 2))) lit_0_005,
      f64_mul (f64_of_int (signed16 (bs ! 3) (bs ! 4))) lit_0_0025,
      f64_quo (f64_add (f64_of_int (signed16 (bs ! 5) (bs ! 6))) 50000) 100)"

text \<open>
  A qualifying advertisement: the name contains the marker and the manufacturer data has
  an entry under 1177 (the two tests of the callback).
\<close>

definition qualifies :: "ScanResult \<Rightarrow> bool" where
  "qualifies device =
     (Contains (LocalName device) ''Ruuvi'' \<and> ManufacturerData device 1177 \<noteq> None)"

subsection \<open>Concrete inputs\<close>

definition beacon :: "byte list \<Rightarrow> ScanResult" where
  "beacon payload = \<lparr>LocalName = ''Ruuvi 1A2B'', ManufacturerData = [1177 \<mapsto> payload]\<rparr>"

definition scan_ok :: scan where
  "scan_ok = \<lparr>found = [(beacon [5, 0x01, 0xF4, 0x27, 0x10, 0xC3, 0x50], None)],
     returned = None, seconds = 3\<rparr>"

definition scan_failed :: scan where
  "scan_failed = \<lparr>found = [], returned = Some ''adapter is powered off'', seconds = 3\<rparr>"

definition scan_stop_failed :: scan where
  "scan_stop_failed =
     \<lparr>found = [(beacon [5, 0x01, 0xF4, 0x27, 0x10, 0xC3, 0x50], Some ''not scanning'')],
      returned = None, seconds = 3\<rparr>"

definition scan_both_failed :: scan where
  "scan_both_failed =
     \<lparr>found = [(beacon [5, 0x01, 0xF4, 0x27, 0x10, 0xC3, 0x50], Some ''not scanning'')],
      returned = Some ''discovery aborted'', seconds = 3\<rparr>"



section \<open>Properties of the primitives\<close>

subsection \<open>Hexadecimal printing and parsing\<close>

text \<open>
  Printing two bytes with \<open>%x\<close> and parsing the four digits in base 16 always succeeds
  and gives the unsigned big-endian value: a leading digit \<open>8\<close> to \<open>f\<close> is a large
  positive number for \<open>ParseInt\<close> with 64 bits, never a sign.
\<close>

lemma nibble_cases: "n < 16 \<Longrightarrow> n \<in> {0, 1, 2, 3, 4, 5, 6, 7, 8, 9, 10, 11, 12, 13, 14, 15::nat}"
  by simp arith

lemma digit_val_hexdigit: "n < 16 \<Longrightarrow> digit_val (hexdigit n) = Some n"
  by (drule nibble_cases) (auto simp: digit_val_def hexdigit_def)

lemma hexdigit_no_sign: "n < 16 \<Longrightarrow> hexdigit n \<noteq> CHR ''-'' \<and> hexdigit n \<noteq> CHR ''+''"
  by (drule nibble_cases) (auto simp: hexdigit_def)

lemma unat_byte_less: "unat (b::byte) < 256"
  using unsigned_less[of b, where 'a = nat] by simp

lemma byte_nibbles: "unat (b::byte) div 16 < 16" "unat (b::byte) mod 16 < 16"
  using unat_byte_less[of b] by simp_all

lemma ParseUint_digits_hex:
  "d < 16 \<Longrightarrow> n < 2 ^ 60 \<Longrightarrow>
   ParseUint_digits 16 n (hexdigit d # cs) = ParseUint_digits 16 (n * 16 + d) cs"
  by (simp add: digit_val_hexdigit)

lemma ParseUint_digits_Sprintf_x:
  "ParseUint_digits 16 0 (Sprintf_x [a, b]) = Inr (256 * unat a + unat b)"
proof -
  define ah al bh bl where "ah = unat a div 16" and "al = unat a mod 16"
    and "bh = unat b div 16" and "bl = unat b mod 16"
  have n: "ah < 16" "al < 16" "bh < 16" "bl < 16"
    by (simp_all add: ah_def al_def bh_def bl_def byte_nibbles)
  have v: "256 * unat a + unat b = ((ah * 16 + al) * 16 + bh) * 16 + bl"
    by (simp add: ah_def al_def bh_def bl_def)
  have sx: "Sprintf_x [a, b] = [hexdigit ah, hexdigit al, hexdigit bh, hexdigit bl]"
    by (simp add: Sprintf_x_def ah_def al_def bh_def bl_def)
  have "ParseUint_digits 16 0 [hexdigit ah, hexdigit al, hexdigit bh, hexdigit bl]
      = Inr (((ah * 16 + al) * 16 + bh) * 16 + bl)"
    using n by (simp add: ParseUint_digits_hex del: ParseUint_digits.simps(2))
  then show ?thesis
    unfolding sx v .
qed

lemma ParseInt_unsigned:
  "ParseUint_digits base 0 (c # cs) = Inr un \<Longrightarrow> c \<noteq> CHR ''-'' \<Longrightarrow> c \<noteq> CHR ''+'' \<Longrightarrow>
   un < 2 ^ (bitSize - 1) \<Longrightarrow> ParseInt (c # cs) base bitSize = Inr (int un)"
  by (simp add: ParseInt_def ParseUint_def del: ParseUint_digits.simps)

lemma ParseInt_Sprintf_x: "ParseInt (Sprintf_x [a, b]) 16 64 = Inr (unsigned16 a b)"
proof -
  have ne: "Sprintf_x [a, b] = hexdigit (unat a div 16) # tl (Sprintf_x [a, b])"
    by (simp add: Sprintf_x_def)
  have lt: "256 * unat a + unat b < 2 ^ (64 - 1)"
    using unat_byte_less[of a] unat_byte_less[of b] by simp
  have "ParseUint_digits 16 0 (hexdigit (unat a div 16) # tl (Sprintf_x [a, b])) = Inr (256 * unat a + unat b)"
    using ParseUint_digits_Sprintf_x[of a b] ne by simp
  then have "ParseInt (hexdigit (unat a div 16) # tl (Sprintf_x [a, b])) 16 64 = Inr (int (256 * unat a + unat b))"
    using hexdigit_no_sign[OF byte_nibbles(1)[of a]] lt by (intro ParseInt_unsigned) simp_all
  then show ?thesis using ne by (simp add: unsigned16_def)
qed

lemma unsigned16_range: "0 \<le> unsigned16 a b \<and> unsigned16 a b < 65536"
  using uint_lt2p[of a] uint_lt2p[of b] by (simp add: unsigned16_def)

lemma u16_vals: "unsigned16 0x01 0xF4 = 500" "unsigned16 0x27 0x10 = 10000" "unsigned16 0xC3 0x50 = 50000"
  "unsigned16 0x9C 0x40 = 40000" "unsigned16 0 0 = 0" "unsigned16 0xFF 0xFF = 65535"
  by (simp_all add: unsigned16_def)

lemma s16_vals: "signed16 0x9C 0x40 = -25536" "signed16 0xC3 0x50 = -15536" "signed16 0x01 0xF4 = 500"
  by (simp_all add: signed16_def unsigned16_def)

subsection \<open>Slices\<close>

lemma take2_drop:
  assumes "lo + 2 \<le> length xs"
  shows "take 2 (drop lo (xs @ ys)) = [xs ! lo, xs ! Suc lo]"
proof -
  have "drop lo xs = xs ! lo # drop (Suc lo) xs"
    using assms by (simp add: Cons_nth_drop_Suc)
  moreover have "drop (Suc lo) xs = xs ! Suc lo # drop (Suc (Suc lo)) xs"
    using assms by (simp add: Cons_nth_drop_Suc)
  ultimately have "drop lo xs = xs ! lo # xs ! Suc lo # drop (Suc (Suc lo)) xs"
    by simp
  then show ?thesis
    using assms by (simp add: numeral_2_eq_2)
qed

lemma subslice_pair:
  assumes "lo + 2 \<le> len buf" and "hi = lo + 2"
  shows "\<exists>s. subslice buf lo hi = Inr s \<and> elems s = [elems buf ! lo, elems buf ! Suc lo]"
proof -
  have t: "take 2 (drop lo (elems buf @ spare buf)) = [elems buf ! lo, elems buf ! Suc lo]"
    by (rule take2_drop) (use assms in \<open>simp add: len_def\<close>)
  have "\<not> cap buf < hi" "\<not> hi < lo" "hi - lo = 2"
    using assms by (simp_all add: len_def cap_def)
  then show ?thesis
    unfolding subslice_def by (simp add: t del: drop_append)
qed

lemma len_copy: "len (copy dst src) = len dst"
  by (simp add: copy_def len_def)

lemma spare_copy: "spare (copy dst src) = spare dst"
  by (simp add: copy_def)


subsection \<open>Rounding to float64\<close>

text \<open>
  \<open>ilog2\<close> finds the binary exponent, so \<open>round64\<close> rounds to 53 significant bits:
  a value within half a unit in the last place of \<open>n * 2 ^ (e - 52)\<close> rounds to it.
  Integers below \<open>2 ^ 53\<close> are float64 values.
\<close>

lemma ilog2_bounds:
  assumes "0 < a"
  shows "power_int 2 (ilog2 a) \<le> a \<and> a < power_int 2 (ilog2 a + 1)"
proof (cases "1 \<le> a")
  case True
  define n where "n = nat \<lfloor>a\<rfloor>"
  define k where "k = floorlog 2 n"
  have n1: "0 < n" using True by (simp add: n_def)
  have b: "2 ^ (k - 1) \<le> n" "n < 2 ^ k"
    using floorlog_bounds[of n 2] n1 by (simp_all add: k_def)
  have k1: "1 \<le> k" using n1 by (simp add: k_def floorlog_def)
  have i: "ilog2 a = int (k - 1)" using True k1 by (simp add: ilog2_def k_def n_def)
  have fl: "int n = \<lfloor>a\<rfloor>" using True by (simp add: n_def)
  have "(2::rat) ^ (k - 1) \<le> of_int (int n)" using b(1)
    by (metis of_int_of_nat_eq of_nat_le_iff of_nat_numeral of_nat_power)
  also have "\<dots> \<le> a" unfolding fl by simp
  finally have lo: "(2::rat) ^ (k - 1) \<le> a" .
  have "\<lfloor>a\<rfloor> < 2 ^ k" using b(2) fl
    by (metis of_nat_less_iff of_nat_numeral of_nat_power)
  then have hi: "a < 2 ^ k" by (simp add: floor_less_iff)
  have p1: "power_int (2::rat) (int (k - 1)) = 2 ^ (k - 1)"
    by (rule power_int_of_nat)
  have "int (k - 1) + 1 = int k" using k1 by simp
  then have p2: "power_int (2::rat) (int (k - 1) + 1) = 2 ^ k"
    by (simp only: power_int_of_nat)
  show ?thesis unfolding i p1 p2 using lo hi by (rule conjI)
next
  case False
  define b where "b = 1 / a"
  define n where "n = nat (\<lceil>b\<rceil> - 1)"
  define k where "k = floorlog 2 n"
  have b1: "1 < b" using False assms by (simp add: b_def)
  have n1: "0 < n" using b1 by (simp add: n_def less_ceiling_iff)
  have nn: "int n = \<lceil>b\<rceil> - 1" using b1 by (simp add: n_def le_ceiling_iff)
  have bd: "2 ^ (k - 1) \<le> n" "n < 2 ^ k"
    using floorlog_bounds[of n 2] n1 by (simp_all add: k_def)
  have k1: "1 \<le> k" using n1 by (simp add: k_def floorlog_def)
  have i: "ilog2 a = - int k" using False by (simp add: ilog2_def k_def n_def b_def)
  have "int n < 2 ^ k" using bd(2) by (metis of_nat_less_iff of_nat_numeral of_nat_power)
  then have "\<lceil>b\<rceil> \<le> 2 ^ k" using nn by simp
  then have bk: "b \<le> 2 ^ k" by (simp add: ceiling_le_iff)
  have "(2::int) ^ (k - 1) \<le> int n" using bd(1) by (metis of_nat_le_iff of_nat_numeral of_nat_power)
  then have "(2::int) ^ (k - 1) < \<lceil>b\<rceil>" using nn by simp
  then have kb: "2 ^ (k - 1) < b" by (simp add: less_ceiling_iff)
  have lo: "1 / 2 ^ k \<le> a"
    using bk assms by (simp add: b_def field_simps)
  have hi: "a < 1 / 2 ^ (k - 1)"
    using kb assms by (simp add: b_def field_simps)
  have e1: "power_int (2::rat) (- int k) = 1 / 2 ^ k"
    by (simp only: power_int_minus_divide power_int_of_nat)
  have "- int k + 1 = - int (k - 1)" using k1 by simp
  then have e2: "power_int (2::rat) (- int k + 1) = 1 / 2 ^ (k - 1)"
    by (simp only: power_int_minus_divide power_int_of_nat)
  show ?thesis unfolding i e1 e2 using lo hi by (rule conjI)
qed

lemma ilog2_unique:
  assumes "0 < a" and "power_int 2 e \<le> a" and "a < power_int 2 (e + 1)"
  shows "ilog2 a = e"
proof (rule ccontr)
  assume ne: "ilog2 a \<noteq> e"
  note b = ilog2_bounds[OF assms(1)]
  show False
  proof (cases "ilog2 a < e")
    case True
    then have "power_int (2::rat) (ilog2 a + 1) \<le> power_int 2 e"
      by (intro power_int_increasing) simp_all
    then show False using b assms(2) by simp
  next
    case False
    then have "e + 1 \<le> ilog2 a" using ne by simp
    then have "power_int (2::rat) (e + 1) \<le> power_int 2 (ilog2 a)"
      by (intro power_int_increasing) simp_all
    then show False using b assms(3) by simp
  qed
qed

lemma round_half_even_near:
  assumes "\<bar>y - of_int n\<bar> < 1 / 2"
  shows "round_half_even y = n"
proof (cases "of_int n \<le> y")
  case True
  then have "\<lfloor>y\<rfloor> = n" using assms by (intro floor_unique) simp_all
  then show ?thesis using assms True by (simp add: round_half_even_def)
next
  case False
  then have "\<lfloor>y\<rfloor> = n - 1" using assms by (intro floor_unique) simp_all
  then show ?thesis using assms False by (simp add: round_half_even_def)
qed

lemma round64_near:
  assumes "0 < x" and "power_int 2 e \<le> x" and "x < power_int 2 (e + 1)" and "- 1022 \<le> e"
    and "\<bar>x / power_int 2 (e - 52) - of_int n\<bar> < 1 / 2"
  shows "round64 x = of_int n * power_int 2 (e - 52)"
proof -
  have "ilog2 \<bar>x\<bar> = e" using assms(1-3) by (intro ilog2_unique) simp_all
  then show ?thesis
    using assms(1,4,5) by (simp add: round64_def Let_def round_half_even_near max_def)
qed

lemma round64_minus: "round64 (- x) = - round64 x"
  by (simp add: round64_def Let_def sgn_minus)

lemma round_half_even_of_int: "round_half_even (of_int n) = n"
  using round_half_even_near[of "of_int n" n] by simp

lemma round64_of_nat_pos:
  assumes "0 < i" and "i < 2 ^ 53"
  shows "round64 (of_int i) = of_int i"
proof -
  define x :: rat where "x = of_int i"
  define e where "e = ilog2 x"
  have x0: "0 < x" using assms(1) by (simp add: x_def)
  have b: "power_int 2 e \<le> x" "x < power_int 2 (e + 1)"
    using ilog2_bounds[OF x0] by (simp_all add: e_def)
  have "(1::rat) \<le> x" using assms(1) by (simp add: x_def)
  then have "power_int (2::rat) 0 < power_int 2 (e + 1)" using b(2) by simp
  then have e0: "0 \<le> e"
    using power_int_increasing[of "e + 1" 0 "2::rat"] by (cases "0 \<le> e") auto
  have "x < 2 ^ 53" using assms(2) unfolding x_def
    by (metis of_int_less_iff of_int_numeral of_int_power)
  then have "power_int (2::rat) e < power_int 2 53" using b(1) by simp
  then have e52: "e \<le> 52"
    using power_int_increasing[of 53 e "2::rat"] by (cases "e \<le> 52") auto
  define k where "k = nat (52 - e)"
  have ek: "e - 52 = - int k" using e52 by (simp add: k_def)
  have u: "power_int (2::rat) (e - 52) = 1 / 2 ^ k"
    unfolding ek by (simp only: power_int_minus_divide power_int_of_nat)
  have q: "x / power_int 2 (e - 52) = of_int (i * 2 ^ k)"
    unfolding u by (simp add: x_def)
  have "round64 x = of_int (round_half_even (x / power_int 2 (e - 52))) * power_int 2 (e - 52)"
    using x0 e0 by (simp add: round64_def Let_def e_def max_def)
  also have "\<dots> = of_int (i * 2 ^ k) * power_int 2 (e - 52)"
    unfolding q round_half_even_of_int ..
  also have "\<dots> = of_int (i * 2 ^ k) * (1 / 2 ^ k)"
    unfolding u ..
  also have "\<dots> = x" by (simp add: x_def)
  finally show ?thesis by (simp add: x_def)
qed

lemma f64_of_int_exact:
  assumes "\<bar>i\<bar> < 2 ^ 53"
  shows "f64_of_int i = of_int i"
proof -
  consider "i = 0" | "0 < i" | "i < 0" by linarith
  then show ?thesis
  proof cases
    case 1
    then show ?thesis by (simp add: f64_of_int_def round64_def)
  next
    case 2
    then show ?thesis using assms round64_of_nat_pos[of i] by (simp add: f64_of_int_def)
  next
    case 3
    then have "round64 (of_int (- i)) = of_int (- i)"
      using assms by (intro round64_of_nat_pos) simp_all
    then show ?thesis
      using round64_minus[of "of_int i"] by (simp add: f64_of_int_def)
  qed
qed

lemma f64_of_int_unsigned16: "f64_of_int (unsigned16 a b) = of_int (unsigned16 a b)"
  using unsigned16_range[of a b] by (intro f64_of_int_exact) simp


text \<open>The two constants, and the scalings of the raw values used below.\<close>

lemma lit_0_005_value: "lit_0_005 = 5764607523034235 / 2 ^ 60"
  unfolding lit_0_005_def
  using round64_near[of "5 / 1000" "- 8" 5764607523034235] by simp

lemma lit_0_0025_value: "lit_0_0025 = 5764607523034235 / 2 ^ 61"
  unfolding lit_0_0025_def
  using round64_near[of "25 / 10000" "- 9" 5764607523034235] by simp

lemma temp_500: "f64_mul (f64_of_int 500) lit_0_005 = 5 / 2"
proof -
  have a: "f64_of_int 500 = 500"
    using f64_of_int_exact[of 500] by simp
  have c: "round64 (500 * (5764607523034235 / 2 ^ 60)) = 5 / 2"
    using round64_near[of "500 * (5764607523034235 / 2 ^ 60)" "1" 5629499534213120] by simp
  show ?thesis
    unfolding f64_mul_def a lit_0_005_value c ..
qed

lemma humidity_10000: "f64_mul (f64_of_int 10000) lit_0_0025 = 25"
proof -
  have a: "f64_of_int 10000 = 10000"
    using f64_of_int_exact[of 10000] by simp
  have c: "round64 (10000 * (5764607523034235 / 2 ^ 61)) = 25"
    using round64_near[of "10000 * (5764607523034235 / 2 ^ 61)" "4" 7036874417766400] by simp
  show ?thesis
    unfolding f64_mul_def a lit_0_0025_value c ..
qed

lemma humidity_40000: "f64_mul (f64_of_int 40000) lit_0_0025 = 100"
proof -
  have a: "f64_of_int 40000 = 40000"
    using f64_of_int_exact[of 40000] by simp
  have c: "round64 (40000 * (5764607523034235 / 2 ^ 61)) = 100"
    using round64_near[of "40000 * (5764607523034235 / 2 ^ 61)" "6" 7036874417766400] by simp
  show ?thesis
    unfolding f64_mul_def a lit_0_0025_value c ..
qed

lemma humidity_neg_25536: "f64_mul (f64_of_int (- 25536)) lit_0_0025 = - (2246170314151035 / 35184372088832)"
proof -
  have a: "f64_of_int (- 25536) = - 25536"
    using f64_of_int_exact[of "- 25536"] by simp
  have c: "round64 (25536 * (5764607523034235 / 2 ^ 61)) = 2246170314151035 / 35184372088832"
    using round64_near[of "25536 * (5764607523034235 / 2 ^ 61)" "5" 8984681256604140] by simp
  have "round64 (- 25536 * (5764607523034235 / 2 ^ 61)) = - round64 (25536 * (5764607523034235 / 2 ^ 61))"
    using round64_minus[of "25536 * (5764607523034235 / 2 ^ 61)"] by simp
  then show ?thesis
    unfolding f64_mul_def a lit_0_0025_value c .
qed

lemma temp_65535: "f64_mul (f64_of_int 65535) lit_0_005 = 5764519562104013 / 17592186044416"
proof -
  have a: "f64_of_int 65535 = 65535"
    using f64_of_int_exact[of 65535] by simp
  have c: "round64 (65535 * (5764607523034235 / 2 ^ 60)) = 5764519562104013 / 17592186044416"
    using round64_near[of "65535 * (5764607523034235 / 2 ^ 60)" "8" 5764519562104013] by simp
  show ?thesis
    unfolding f64_mul_def a lit_0_005_value c ..
qed

lemma pressure_50000: "f64_quo (f64_add (f64_of_int 50000) 50000) 100 = 1000"
proof -
  have a: "f64_of_int 50000 = 50000"
    using f64_of_int_exact[of "50000"] by simp
  have b: "round64 100000 = 100000"
    using round64_of_nat_pos[of 100000] by simp
  have c: "round64 (100000 / 100) = 1000"
    using round64_near[of "100000 / 100" "9" 8796093022208000] by simp
  have "f64_add (50000) 50000 = 100000"
    using b by (simp add: f64_add_def)
  then show ?thesis
    unfolding f64_quo_def a using c by simp
qed


lemma pressure_neg_15536: "f64_quo (f64_add (f64_of_int (- 15536)) 50000) 100 = 3031485499173765 / 8796093022208"
proof -
  have a: "f64_of_int (- 15536) = - 15536"
    using f64_of_int_exact[of "- 15536"] by simp
  have b: "round64 34464 = 34464"
    using round64_of_nat_pos[of 34464] by simp
  have c: "round64 (34464 / 100) = 3031485499173765 / 8796093022208"
    using round64_near[of "34464 / 100" "8" 6062970998347530] by simp
  have "f64_add (- 15536) 50000 = 34464"
    using b by (simp add: f64_add_def)
  then show ?thesis
    unfolding f64_quo_def a using c by simp
qed

section \<open>Properties of the program\<close>

subsection \<open>parsePacket\<close>

text \<open>
  On a buffer of at least seven bytes that starts with 5, \<open>parsePacket\<close> sets the three
  gauges from the unsigned values of bytes 1-2, 3-4 and 5-6 and returns \<open>nil\<close>; it
  never touches the counters or the histogram.
\<close>

lemma parsePacket_valid:
  assumes "7 \<le> len buf" and "elems buf ! 0 = 5"
  shows "parsePacket buf m =
    (m\<lparr>tempGauge := f64_mul (f64_of_int (unsigned16 (elems buf ! 1) (elems buf ! 2))) lit_0_005,
       humidityGauge := f64_mul (f64_of_int (unsigned16 (elems buf ! 3) (elems buf ! 4))) lit_0_0025,
       pressureGauge := f64_quo (f64_add (f64_of_int (unsigned16 (elems buf ! 5) (elems buf ! 6))) 50000) 100\<rparr>,
     Returned None)"
proof -
  obtain s1 where s1: "subslice buf 1 3 = Inr s1" "elems s1 = [elems buf ! 1, elems buf ! 2]"
    using subslice_pair[of 1 buf 3] assms(1) by (auto simp: numeral_2_eq_2)
  obtain s2 where s2: "subslice buf 3 5 = Inr s2" "elems s2 = [elems buf ! 3, elems buf ! 4]"
    using subslice_pair[of 3 buf 5] assms(1) by (auto simp: eval_nat_numeral)
  obtain s3 where s3: "subslice buf 5 7 = Inr s3" "elems s3 = [elems buf ! 5, elems buf ! 6]"
    using subslice_pair[of 5 buf 7] assms(1) by (auto simp: eval_nat_numeral)
  have i0: "index buf 0 = Inr 5"
    using assms by (simp add: index_def)
  show ?thesis
    unfolding parsePacket_def i0 s1(1) s2(1) s3(1)
    by (simp add: s1(2) s2(2) s3(2) ParseInt_Sprintf_x Let_def)
qed

lemma parsePacket_long:
  assumes "7 \<le> len buf"
  shows "parsePacket buf m =
    (if elems buf ! 0 = 5 then
      (m\<lparr>tempGauge := f64_mul (f64_of_int (unsigned16 (elems buf ! 1) (elems buf ! 2))) lit_0_005,
         humidityGauge := f64_mul (f64_of_int (unsigned16 (elems buf ! 3) (elems buf ! 4))) lit_0_0025,
         pressureGauge := f64_quo (f64_add (f64_of_int (unsigned16 (elems buf ! 5) (elems buf ! 6))) 50000) 100\<rparr>,
       Returned None)
     else (m, Returned (Some InvalidFormat)))"
proof (cases "elems buf ! 0 = 5")
  case True
  then show ?thesis using parsePacket_valid[OF assms] by simp
next
  case False
  then show ?thesis using assms by (simp add: parsePacket_def index_def)
qed

lemma parsePacket_frame:
  "numMeasurements (fst (parsePacket buf m)) = numMeasurements m \<and>
   numMeasurementsErrs (fst (parsePacket buf m)) = numMeasurementsErrs m \<and>
   measureTime (fst (parsePacket buf m)) = measureTime m"
  by (simp add: parsePacket_def Let_def split: sum.split)

text \<open>
  A raw temperature with the high bit set is read as a large positive number: bytes
  FF FF give 65535 * 0.005, about 327.675, not -0.005.
\<close>

lemma parsePacket_temperature_ffff:
  "tempGauge (fst (parsePacket (bytes [5, 0xFF, 0xFF, 0, 0, 0, 0]) m)) =
     5764519562104013 / 17592186044416"
  using parsePacket_valid[of "bytes [5, 0xFF, 0xFF, 0, 0, 0, 0]" m]
  by (simp add: bytes_def len_def u16_vals temp_65535)

subsection \<open>The scan and measure\<close>

text \<open>
  The buffer \<open>measure\<close> hands to \<open>parsePacket\<close> always has 32 bytes and no spare
  capacity, so \<open>parsePacket\<close> returns there, and \<open>measure\<close> has four outcomes.
\<close>

lemma callback_buf:
  "len (fst (callback d st)) = len (fst st) \<and> spare (fst (callback d st)) = spare (fst st)"
  by (cases d; cases st) (simp add: callback_def len_copy spare_copy split: option.split)

lemma foldl_callback_buf:
  "len (fst (foldl (\<lambda>st d. callback d st) st ds)) = len (fst st) \<and>
   spare (fst (foldl (\<lambda>st d. callback d st) st ds)) = spare (fst st)"
  by (induction ds arbitrary: st) (simp_all add: callback_buf)

lemma scanned_buf: "len (fst (scanned sc)) = 32 \<and> spare (fst (scanned sc)) = []"
  using foldl_callback_buf[of "(make_slice 32, None)" "found sc"]
  by (simp add: scanned_def make_slice_def len_def)

lemma parsePacket_scanned:
  "\<exists>r. snd (parsePacket (fst (scanned sc)) m) = Returned r"
  using parsePacket_long[of "fst (scanned sc)" m] scanned_buf[of sc] by auto

lemma measure_go_cases:
  "measure_go sc m =
     (case returned sc of
        Some err \<Rightarrow> (observe sc m, Returned (Some (Scanning (AdapterError err))))
      | None \<Rightarrow>
          (case snd (scanned sc) of
             Some e \<Rightarrow> (observe sc m, Returned (Some e))
           | None \<Rightarrow>
               (observe sc (fst (parsePacket (fst (scanned sc)) m)),
                Returned (map_option ParsingPacket (case snd (parsePacket (fst (scanned sc)) m) of Returned r \<Rightarrow> r | Panicked q \<Rightarrow> None)))))"
proof -
  obtain r where r: "snd (parsePacket (fst (scanned sc)) m) = Returned r"
    using parsePacket_scanned by blast
  obtain buf e where s: "scanned sc = (buf, e)" by (cases "scanned sc")
  obtain m' where p: "parsePacket buf m = (m', Returned r)"
    using r s by (cases "parsePacket buf m") simp
  show ?thesis
    by (simp add: measure_go_def s p split: option.split)
qed


lemma measure_go_counters:
  "numMeasurements (fst (measure_go sc m)) = numMeasurements m \<and>
   numMeasurementsErrs (fst (measure_go sc m)) = numMeasurementsErrs m"
  by (simp add: measure_go_cases observe_def parsePacket_frame split: option.split)

text \<open>A cycle that fails leaves the three gauges as they were.\<close>

lemma measure_go_failure_keeps_gauges:
  assumes "snd (measure_go sc m) = Returned (Some e)"
  shows "gauges (fst (measure_go sc m)) = gauges m"
proof -
  have l: "7 \<le> len (fst (scanned sc))"
    using scanned_buf[of sc] by simp
  show ?thesis
    using assms unfolding measure_go_cases parsePacket_long[OF l, of m]
    by (auto simp: gauges_def observe_def split: option.splits if_splits)
qed

text \<open>A stop error, once stored, stays until \<open>adapter.Scan\<close> returns.\<close>

lemma callback_keeps_error: "snd st \<noteq> None \<Longrightarrow> snd (callback d st) \<noteq> None"
  by (cases d; cases st) (auto simp: callback_def split: option.split)

lemma foldl_callback_keeps_error:
  "snd st \<noteq> None \<Longrightarrow> snd (foldl (\<lambda>st d. callback d st) st ds) \<noteq> None"
proof (induction ds arbitrary: st)
  case Nil
  then show ?case by simp
next
  case (Cons d ds)
  have "snd (callback d st) \<noteq> None"
    using Cons.prems by (rule callback_keeps_error)
  then have "snd (foldl (\<lambda>st d. callback d st) (callback d st) ds) \<noteq> None"
    by (rule Cons.IH)
  then show ?case by simp
qed

lemma callback_stop_failed:
  "qualifies device \<Longrightarrow> snd (callback (device, Some err) st) = Some (StoppingScan (AdapterError err))"
  by (cases st) (auto simp: callback_def qualifies_def)

lemma foldl_callback_stop_failed:
  "(device, Some err) \<in> set ds \<Longrightarrow> qualifies device \<Longrightarrow>
   snd (foldl (\<lambda>st d. callback d st) st ds) \<noteq> None"
proof (induction ds arbitrary: st)
  case Nil
  then show ?case by simp
next
  case (Cons d ds)
  show ?case
  proof (cases "d = (device, Some err)")
    case True
    then have "snd (callback d st) \<noteq> None"
      using Cons.prems(2) by (simp add: callback_stop_failed)
    then have "snd (foldl (\<lambda>st d. callback d st) (callback d st) ds) \<noteq> None"
      by (rule foldl_callback_keeps_error)
    then show ?thesis by simp
  next
    case False
    then have "(device, Some err) \<in> set ds" using Cons.prems(1) by auto
    then have "snd (foldl (\<lambda>st d. callback d st) (callback d st) ds) \<noteq> None"
      using Cons.prems(2) by (rule Cons.IH)
    then show ?thesis by simp
  qed
qed

lemma callback_error_shape:
  "snd (callback d st) = Some e \<Longrightarrow>
   snd st = Some e \<or> (\<exists>x. e = StoppingScan (AdapterError x))"
  by (cases d; cases st) (auto simp: callback_def split: option.splits if_splits)

lemma foldl_callback_error_shape:
  "snd (foldl (\<lambda>st d. callback d st) st ds) = Some e \<Longrightarrow>
   snd st = Some e \<or> (\<exists>x. e = StoppingScan (AdapterError x))"
proof (induction ds arbitrary: st)
  case Nil
  then show ?case by simp
next
  case (Cons d ds)
  then have "snd (callback d st) = Some e \<or> (\<exists>x. e = StoppingScan (AdapterError x))"
    by simp
  then show ?case using callback_error_shape by blast
qed

lemma scanned_stop_failed:
  assumes "(device, Some err) \<in> set (found sc)" and "qualifies device"
  shows "\<exists>x. snd (scanned sc) = Some (StoppingScan (AdapterError x))"
proof -
  obtain e where e: "snd (scanned sc) = Some e"
    using foldl_callback_stop_failed[OF assms, of "(make_slice 32, None)"]
    by (auto simp: scanned_def)
  then show ?thesis
    using foldl_callback_error_shape[of "(make_slice 32, None)" "found sc" e]
    by (simp add: scanned_def)
qed




text \<open>The concrete scans.\<close>

lemma qualifies_beacon: "qualifies (beacon p)"
  by (simp add: qualifies_def beacon_def)

lemma callback_beacon_ok:
  "callback (beacon p, None) (buf, e) = (copy buf p, e)"
  by (simp add: callback_def beacon_def)

lemma scanned_scan_ok:
  "scanned scan_ok = (\<lparr>elems = [5, 0x01, 0xF4, 0x27, 0x10, 0xC3, 0x50] @ replicate 25 0, spare = []\<rparr>, None)"
  by (simp add: scanned_def scan_ok_def callback_beacon_ok copy_def make_slice_def len_def)

lemma measure_scan_ok:
  "measure_go scan_ok m =
     (m\<lparr>tempGauge := 5 / 2, humidityGauge := 25, pressureGauge := 1000,
        measureTime := measureTime m @ [3]\<rparr>,
      Returned None)"
proof -
  let ?buf = "\<lparr>elems = [5, 0x01, 0xF4, 0x27, 0x10, 0xC3, 0x50] @ replicate 25 0, spare = []\<rparr>"
  have "parsePacket ?buf m =
      (m\<lparr>tempGauge := 5 / 2, humidityGauge := 25, pressureGauge := 1000\<rparr>, Returned None)"
    using parsePacket_valid[of ?buf m]
    by (simp add: len_def u16_vals temp_500 humidity_10000 pressure_50000)
  then show ?thesis
    unfolding measure_go_def scanned_scan_ok
    by (simp add: observe_def scan_ok_def)
qed

lemma measure_scan_failed:
  "measure_go scan_failed m =
     (m\<lparr>measureTime := measureTime m @ [3]\<rparr>,
      Returned (Some (Scanning (AdapterError ''adapter is powered off''))))"
  by (simp add: measure_go_cases scan_failed_def observe_def)

subsection \<open>The ticker loop\<close>


section \<open>The claims\<close>

text \<open>
  C1 (as the program has it). For every buffer of at least seven bytes whose first byte
  is 5, decoding succeeds; bytes 3-4 and 5-6 are read as big-endian unsigned 16-bit
  integers, the humidity being the raw value times 0.0025 and the pressure
  (raw + 50000) / 100; and while the raw value of bytes 1-2 is below 0x8000 the
  temperature is the signed (equally, unsigned) value times 0.005. All products and the
  quotient are float64 operations.
\<close>

theorem parsePacket_fields:
  assumes "7 \<le> len buf" and "elems buf ! 0 = 5"
  shows "snd (parsePacket buf m) = Returned None \<and>
    humidityGauge (fst (parsePacket buf m)) =
      f64_mul (f64_of_int (unsigned16 (elems buf ! 3) (elems buf ! 4))) lit_0_0025 \<and>
    pressureGauge (fst (parsePacket buf m)) =
      f64_quo (f64_add (f64_of_int (unsigned16 (elems buf ! 5) (elems buf ! 6))) 50000) 100 \<and>
    (unsigned16 (elems buf ! 1) (elems buf ! 2) < 32768 \<longrightarrow>
      tempGauge (fst (parsePacket buf m)) =
        f64_mul (f64_of_int (signed16 (elems buf ! 1) (elems buf ! 2))) lit_0_005)"
  by (simp add: parsePacket_valid[OF assms] signed16_def)

text \<open>
  The theorem at the buffer 05 01 F4 9C 40 C3 50: humidity raw 0x9C40 = 40000 gives
  100 percent, pressure raw 0xC350 = 50000 gives 1000 hPa, temperature raw 500 gives 2.5.
\<close>

theorem parsePacket_fields_witness:
  "snd (parsePacket (bytes [5, 0x01, 0xF4, 0x9C, 0x40, 0xC3, 0x50]) metrics0) = Returned None \<and>
   humidityGauge (fst (parsePacket (bytes [5, 0x01, 0xF4, 0x9C, 0x40, 0xC3, 0x50]) metrics0)) = 100 \<and>
   pressureGauge (fst (parsePacket (bytes [5, 0x01, 0xF4, 0x9C, 0x40, 0xC3, 0x50]) metrics0)) = 1000 \<and>
   tempGauge (fst (parsePacket (bytes [5, 0x01, 0xF4, 0x9C, 0x40, 0xC3, 0x50]) metrics0)) = 5 / 2"
  using parsePacket_fields[of "bytes [5, 0x01, 0xF4, 0x9C, 0x40, 0xC3, 0x50]" metrics0]
  by (simp add: bytes_def len_def u16_vals s16_vals temp_500 humidity_40000 pressure_50000)

text \<open>
  C1 as worded fails at that buffer: read as signed, bytes 3-4 are -25536 and bytes 5-6
  are -15536, which would give a humidity near -63.84 and a pressure near 344.64.
\<close>

theorem parsePacket_fields_not_signed:
  "gauges (fst (parsePacket (bytes [5, 0x01, 0xF4, 0x9C, 0x40, 0xC3, 0x50]) metrics0)) =
     (5 / 2, 100, 1000) \<and>
   decoded_signed [5, 0x01, 0xF4, 0x9C, 0x40, 0xC3, 0x50] =
     (5 / 2, - (2246170314151035 / 35184372088832), 3031485499173765 / 8796093022208) \<and>
   gauges (fst (parsePacket (bytes [5, 0x01, 0xF4, 0x9C, 0x40, 0xC3, 0x50]) metrics0)) \<noteq>
     decoded_signed [5, 0x01, 0xF4, 0x9C, 0x40, 0xC3, 0x50]"
proof -
  have a: "gauges (fst (parsePacket (bytes [5, 0x01, 0xF4, 0x9C, 0x40, 0xC3, 0x50]) metrics0)) =
     (5 / 2, 100, 1000)"
    using parsePacket_valid[of "bytes [5, 0x01, 0xF4, 0x9C, 0x40, 0xC3, 0x50]" metrics0]
    by (simp add: bytes_def len_def gauges_def u16_vals temp_500 humidity_40000 pressure_50000)
  have b: "decoded_signed [5, 0x01, 0xF4, 0x9C, 0x40, 0xC3, 0x50] =
     (5 / 2, - (2246170314151035 / 35184372088832), 3031485499173765 / 8796093022208)"
    by (simp add: decoded_signed_def s16_vals temp_500 humidity_neg_25536 pressure_neg_15536)
  show ?thesis unfolding a b by simp
qed

text \<open>
  C2. The program at two cycles, started from the initial metrics: a successful cycle
  returns \<open>nil\<close> and leaves \<open>measurement_count\<close> at 0; a cycle whose scan fails
  returns the error and leaves \<open>measurement_err_count\<close> at 0. By
  \<open>measure_go_counters\<close> no cycle changes either counter.
\<close>

theorem measure_counters_never_incremented:
  "snd (measure_go scan_ok metrics0) = Returned None \<and>
   numMeasurements (fst (measure_go scan_ok metrics0)) = 0 \<and>
   snd (measure_go scan_failed metrics0) =
     Returned (Some (Scanning (AdapterError ''adapter is powered off''))) \<and>
   numMeasurementsErrs (fst (measure_go scan_failed metrics0)) = 0"
  by (simp add: measure_scan_ok measure_scan_failed metrics0_def)

text \<open>
  C3. The program at three short buffers that start with 5: on the one-byte buffer the
  slice expression \<open>buf[1:3]\<close> panics; on a three-byte buffer the temperature gauge is
  set before \<open>buf[3:5]\<close> panics; on a one-byte slice with six more bytes of capacity the
  slice expressions read the backing array beyond the length and decoding succeeds. No
  error value is returned for a short buffer in any of them.
\<close>

theorem parsePacket_short_buffer:
  "parsePacket (bytes [5]) m = (m, Panicked (SliceBoundsOutOfRange 3 1)) \<and>
   parsePacket (bytes [5, 0x01, 0xF4]) m =
     (m\<lparr>tempGauge := 5 / 2\<rparr>, Panicked (SliceBoundsOutOfRange 5 3)) \<and>
   parsePacket \<lparr>elems = [5], spare = [0x01, 0xF4, 0x27, 0x10, 0xC3, 0x50]\<rparr> m =
     (m\<lparr>tempGauge := 5 / 2, humidityGauge := 25, pressureGauge := 1000\<rparr>, Returned None)"
proof -
  have f: "ParseInt (Sprintf_x [0x01, 0xF4]) 16 64 = Inr 500"
    "ParseInt (Sprintf_x [0x27, 0x10]) 16 64 = Inr 10000"
    "ParseInt (Sprintf_x [0xC3, 0x50]) 16 64 = Inr 50000"
    by (simp_all only: ParseInt_Sprintf_x u16_vals)
  show ?thesis
    unfolding parsePacket_def index_def subslice_def bytes_def len_def cap_def
    by (simp add: f temp_500 humidity_10000 pressure_50000)
qed

text \<open>
  C4 (as the program has it). Decoding writes shared state: for every buffer of at least
  seven bytes whose first byte is 5 it sets the three gauges itself to the values it
  decodes, whatever they held before. It never changes the two counters or the duration
  histogram.
\<close>

theorem parsePacket_writes_gauges:
  "numMeasurements (fst (parsePacket buf m)) = numMeasurements m \<and>
   numMeasurementsErrs (fst (parsePacket buf m)) = numMeasurementsErrs m \<and>
   measureTime (fst (parsePacket buf m)) = measureTime m \<and>
   (7 \<le> len buf \<and> elems buf ! 0 = 5 \<longrightarrow>
     gauges (fst (parsePacket buf m)) =
       (f64_mul (f64_of_int (unsigned16 (elems buf ! 1) (elems buf ! 2))) lit_0_005,
        f64_mul (f64_of_int (unsigned16 (elems buf ! 3) (elems buf ! 4))) lit_0_0025,
        f64_quo (f64_add (f64_of_int (unsigned16 (elems buf ! 5) (elems buf ! 6))) 50000) 100))"
  using parsePacket_frame[of buf m] parsePacket_valid[of buf m]
  by (simp add: gauges_def)

text \<open>The theorem at the buffer 05 01 F4 27 10 C3 50 and the initial metrics.\<close>

theorem parsePacket_writes_gauges_witness:
  "gauges (fst (parsePacket (bytes [5, 0x01, 0xF4, 0x27, 0x10, 0xC3, 0x50]) metrics0)) =
     (5 / 2, 25, 1000) \<and>
   numMeasurements (fst (parsePacket (bytes [5, 0x01, 0xF4, 0x27, 0x10, 0xC3, 0x50]) metrics0)) = 0"
  using parsePacket_writes_gauges[of "bytes [5, 0x01, 0xF4, 0x27, 0x10, 0xC3, 0x50]" metrics0]
  by (simp add: bytes_def len_def u16_vals temp_500 humidity_10000 pressure_50000 metrics0_def)

text \<open>
  C4 as worded fails at that buffer: the metrics after decoding differ from the metrics
  before.
\<close>

theorem parsePacket_not_pure:
  "fst (parsePacket (bytes [5, 0x01, 0xF4, 0x27, 0x10, 0xC3, 0x50]) metrics0) \<noteq> metrics0"
  using parsePacket_valid[of "bytes [5, 0x01, 0xF4, 0x27, 0x10, 0xC3, 0x50]" metrics0]
  by (simp add: bytes_def len_def u16_vals temp_500 humidity_10000 pressure_50000 metrics0_def)

text \<open>
  C5. Decoding the buffer 05 01 F4 27 10 C3 50 returns \<open>nil\<close> and sets the temperature
  to 2.5, the humidity to 25 and the pressure to 1000, exactly, in float64 arithmetic.
\<close>

theorem parsePacket_example:
  "parsePacket (bytes [5, 0x01, 0xF4, 0x27, 0x10, 0xC3, 0x50]) m =
     (m\<lparr>tempGauge := 5 / 2, humidityGauge := 25, pressureGauge := 1000\<rparr>, Returned None)"
  using parsePacket_valid[of "bytes [5, 0x01, 0xF4, 0x27, 0x10, 0xC3, 0x50]" m]
  by (simp add: bytes_def len_def u16_vals temp_500 humidity_10000 pressure_50000)

text \<open>
  C6. For every buffer whose first byte is not 5, decoding returns the invalid-format
  error and leaves the metrics as they were: no gauge is set, no field is read.
\<close>

theorem parsePacket_unsupported_format:
  assumes "0 < len buf" and "elems buf ! 0 \<noteq> 5"
  shows "parsePacket buf m = (m, Returned (Some InvalidFormat))"
  using assms by (simp add: parsePacket_def index_def)

text \<open>The theorem at the buffer 03 01 F4 27 10 C3 50.\<close>

theorem parsePacket_unsupported_format_witness:
  "parsePacket (bytes [3, 0x01, 0xF4, 0x27, 0x10, 0xC3, 0x50]) metrics0 =
     (metrics0, Returned (Some InvalidFormat))"
  using parsePacket_unsupported_format[of "bytes [3, 0x01, 0xF4, 0x27, 0x10, 0xC3, 0x50]" metrics0]
  by (simp add: bytes_def len_def)

text \<open>
  C7 (as the program has it). In every cycle in which a qualifying advertisement was
  handed to the callback and the request to stop the scan failed, the captured bytes
  are discarded: the metrics change by the duration observation only, so the decoder
  has not run and no gauge is set. The cycle fails: with the stop error when
  \<open>adapter.Scan\<close> itself returns \<open>nil\<close>, and with the error of \<open>adapter.Scan\<close> when it
  returns one, since that error is checked first.
\<close>

theorem stop_failure_discards_match:
  assumes "(device, Some err) \<in> set (found sc)" and "qualifies device"
  shows "fst (measure_go sc m) = observe sc m \<and>
    (case returned sc of
       None \<Rightarrow> \<exists>x. snd (measure_go sc m) = Returned (Some (StoppingScan (AdapterError x)))
     | Some e \<Rightarrow> snd (measure_go sc m) = Returned (Some (Scanning (AdapterError e))))"
  using scanned_stop_failed[OF assms]
  by (auto simp: measure_go_cases split: option.split)

text \<open>The theorem at a scan whose only result qualifies and whose stop request fails.\<close>

theorem stop_failure_discards_match_witness:
  "measure_go scan_stop_failed metrics0 =
     (metrics0\<lparr>measureTime := [3]\<rparr>,
      Returned (Some (StoppingScan (AdapterError ''not scanning''))))"
  using stop_failure_discards_match[of "beacon [5, 0x01, 0xF4, 0x27, 0x10, 0xC3, 0x50]"
      "''not scanning''" scan_stop_failed metrics0]
  by (simp add: measure_go_cases scanned_def callback_stop_failed qualifies_beacon
      scan_stop_failed_def observe_def metrics0_def)

text \<open>
  C7 as worded fails when \<open>adapter.Scan\<close> returns an error after the failed stop
  request: the cycle returns the scanning error, not the stop error.
\<close>

theorem stop_failure_scan_error_first:
  "(beacon [5, 0x01, 0xF4, 0x27, 0x10, 0xC3, 0x50], Some ''not scanning'')
     \<in> set (found scan_both_failed) \<and>
   qualifies (beacon [5, 0x01, 0xF4, 0x27, 0x10, 0xC3, 0x50]) \<and>
   snd (measure_go scan_both_failed metrics0) =
     Returned (Some (Scanning (AdapterError ''discovery aborted'')))"
  by (simp add: measure_go_cases qualifies_beacon scan_both_failed_def)



text \<open>
  C9. Every call of \<open>measure\<close> appends exactly one observation, the elapsed seconds, to
  the duration histogram, whichever way the cycle ends.
\<close>

theorem measure_records_duration:
  "measureTime (fst (measure_go sc m)) = measureTime m @ [seconds sc]"
  by (simp add: measure_go_cases observe_def parsePacket_frame split: option.split)



end
